theory Spec2Isabelle
  imports Main "HOL-Library.Char_ord" "HOL-Library.List_Lexorder" "HOL-Library.AList"
begin

section \<open>Python strings\<close>

text \<open>
  A Python \<open>str\<close> is a sequence of Unicode code points, so it is modelled as a list of
  natural numbers. \<open>py\<close> turns an ASCII literal into that representation. Comparison of
  two strings is the lexicographic order of the code points, as in Python.
\<close>

type_synonym str = "nat list"

definition py :: "string \<Rightarrow> str" where
  "py s = map of_char s"

text \<open>
  \<open>str.strip()\<close> without argument removes the characters for which the interpreter's
  whitespace test holds: the ASCII ones (tab to carriage return, the four separators
  0x1C to 0x1F, the space) and the Unicode ones listed after them.
\<close>

definition isspace :: "nat \<Rightarrow> bool" where
  "isspace c = (c \<in> set [9, 10, 11, 12, 13, 28, 29, 30, 31, 32, 133, 160, 5760,
      8192, 8193, 8194, 8195, 8196, 8197, 8198, 8199, 8200, 8201, 8202,
      8232, 8233, 8239, 8287, 12288])"

definition lstrip :: "str \<Rightarrow> str" where
  "lstrip s = dropWhile isspace s"

definition rstrip :: "str \<Rightarrow> str" where
  "rstrip s = rev (dropWhile isspace (rev s))"

definition strip :: "str \<Rightarrow> str" where
  "strip s = rstrip (lstrip s)"

text \<open>\<open>s.lstrip(chars)\<close>: drop leading characters as long as they occur in \<open>chars\<close>.\<close>

definition lstrip_chars :: "str \<Rightarrow> str \<Rightarrow> str" where
  "lstrip_chars chars s = dropWhile (\<lambda>c. c \<in> set chars) s"

text \<open>
  \<open>s.split('\n')\<close>: the pieces between line feeds; the result is never empty
  (\<open>''.split('\n') == ['']\<close>), so the second case branch is never taken.
\<close>

fun split_nl :: "str \<Rightarrow> str list" where
  "split_nl [] = [[]]"
| "split_nl (c # cs) =
     (if c = 10 then [] # split_nl cs
      else (case split_nl cs of l # ls \<Rightarrow> (c # l) # ls | [] \<Rightarrow> [[c]]))"

text \<open>\<open>xs[i]\<close> with Python's negative indices; \<open>None\<close> stands for IndexError.\<close>

datatype py_error = IndexError

definition py_index :: "'a list \<Rightarrow> int \<Rightarrow> 'a option" where
  "py_index xs i =
     (if 0 \<le> i \<and> i < int (length xs) then Some (xs ! nat i)
      else if i < 0 \<and> - int (length xs) \<le> i then Some (xs ! nat (int (length xs) + i))
      else None)"

text \<open>\<open>xs[:n]\<close>: a negative \<open>n\<close> counts from the end.\<close>

definition py_prefix :: "'a list \<Rightarrow> int \<Rightarrow> 'a list" where
  "py_prefix xs n = (if 0 \<le> n then take (nat n) xs else take (length xs - nat (- n)) xs)"

section \<open>generate\_paraphrases.py: the example store\<close>

text \<open>
  The two input files are modelled by the dictionaries \<open>csv.DictReader\<close> yields for them:
  rows with the columns \<open>question\<close> and \<open>tag\<close>, and rows with the columns \<open>tag\<close> and
  \<open>answer\<close>.
\<close>

record example_row =
  ex_question :: str
  ex_tag :: str

record answer_row =
  ans_tag :: str
  ans_answer :: str

text \<open>
  \<open>get_unique_tags_from_questions\<close>. The tags are collected in a Python set and sorted
  with \<open>key=str.lower\<close>. The case mapping of \<open>str.lower\<close> is a table of the Python runtime
  and is taken as the parameter \<open>lower\<close>. The set is represented by a duplicate-free
  list; tags with equal keys keep the order of that list, which Python leaves to the
  iteration order of the set.
\<close>

definition get_unique_tags_from_questions :: "(str \<Rightarrow> str) \<Rightarrow> example_row list \<Rightarrow> str list" where
  "get_unique_tags_from_questions lower rows =
     sort_key lower
       (remdups (filter (\<lambda>tag. tag \<noteq> [] \<and> tag \<noteq> py ''fraction'')
                        (map (\<lambda>row. strip (ex_tag row)) rows)))"

definition load_answers_lookup :: "answer_row list \<Rightarrow> (str \<rightharpoonup> str)" where
  "load_answers_lookup rows = foldl (\<lambda>m row. m(ans_tag row \<mapsto> ans_answer row)) Map.empty rows"

text \<open>One iteration of the loop of \<open>load_example_questions\<close>, then the loop.\<close>

definition add_example :: "(str \<rightharpoonup> str list) \<Rightarrow> example_row \<Rightarrow> (str \<rightharpoonup> str list)" where
  "add_example m row =
     (if ex_tag row \<in> set [py ''fraction''] then m
      else if strip (ex_question row) = [] then m
      else m(ex_tag row \<mapsto>
             (case m (ex_tag row) of None \<Rightarrow> [] | Some qs \<Rightarrow> qs) @ [strip (ex_question row)]))"

definition load_example_questions :: "example_row list \<Rightarrow> (str \<rightharpoonup> str list)" where
  "load_example_questions rows = foldl add_example Map.empty rows"

text \<open>
  \<open>get_random_examples\<close>. \<open>random.sample\<close> is the parameter \<open>sample\<close>; the state of the
  random generator is not modelled, and every property below holds whatever \<open>sample\<close>
  returns.
\<close>

definition get_random_examples ::
  "(str list \<Rightarrow> nat \<Rightarrow> str list) \<Rightarrow> (str \<rightharpoonup> str list) \<Rightarrow> str \<Rightarrow> nat \<Rightarrow> str list" where
  "get_random_examples sample tag_questions tag_name num_examples =
     (case tag_questions tag_name of
        None \<Rightarrow> []
      | Some available \<Rightarrow>
          if length available \<le> num_examples then available
          else sample available num_examples)"

section \<open>generate\_paraphrases.py: the generation client\<close>

text \<open>
  The prompt sent to the service is a fixed text around the example questions and the
  answer, so a request is represented by these two values (the tag is only used in log
  messages). One call of \<open>client.responses.create\<close> either raises or yields a response
  with an output text. The service is a function of the number of requests issued so
  far and of the request, which covers every sequence of responses.
\<close>

record prompt =
  pr_examples :: "str list"
  pr_answer :: str

datatype response = Fault | Output str

type_synonym service = "nat \<Rightarrow> prompt \<Rightarrow> response"

text \<open>
  The body of the loop over the lines of a response: \<open>None\<close> when the line contributes
  nothing to \<open>questions\<close>.
\<close>

definition clean_line :: "str \<Rightarrow> str option" where
  "clean_line line0 =
     (let line1 = strip line0
      in if line1 = [] then None
         else let line2 = lstrip_chars (py ''. )-'') (lstrip_chars (py ''0123456789'') line1);
                  line3 = strip line2
              in if line3 \<noteq> [] then Some line3 else None)"

definition parse_questions :: "str \<Rightarrow> str list" where
  "parse_questions questions_text = List.map_filter clean_line (split_nl questions_text)"

text \<open>
  \<open>generate_questions_with_gpt5\<close>: the loop \<open>for attempt in range(max_retries)\<close>, with the
  number of requests issued so far threaded through. The waiting between attempts is
  not modelled. The result is \<open>None\<close> for Python's \<open>None\<close>.
\<close>

function attempts :: "service \<Rightarrow> prompt \<Rightarrow> nat \<Rightarrow> nat \<Rightarrow> nat \<Rightarrow> str list option \<times> nat" where
  "attempts svc p max_retries attempt calls =
     (if max_retries \<le> attempt then (None, calls)
      else
        (case svc calls p of
           Fault \<Rightarrow>
             if attempt < max_retries - 1
             then attempts svc p max_retries (Suc attempt) (Suc calls)
             else (None, Suc calls)
         | Output output_text \<Rightarrow>
             (let questions_text = strip output_text
              in if questions_text = [] then
                   (if attempt < max_retries - 1
                    then attempts svc p max_retries (Suc attempt) (Suc calls)
                    else (None, Suc calls))
                 else
                   (let questions = parse_questions questions_text
                    in if length questions < 200 then
                         (if attempt < max_retries - 1
                          then attempts svc p max_retries (Suc attempt) (Suc calls)
                          else (None, Suc calls))
                       else (Some (take 200 questions), Suc calls)))))"
  by pat_completeness auto
termination
  by (relation "measure (\<lambda>(svc, p, max_retries, attempt, calls). max_retries - attempt)") auto

declare attempts.simps [simp del]

definition generate_questions_with_gpt5 ::
  "service \<Rightarrow> str \<Rightarrow> str list \<Rightarrow> nat \<Rightarrow> nat \<Rightarrow> str list option \<times> nat" where
  "generate_questions_with_gpt5 svc original_answer example_questions max_retries calls =
     attempts svc \<lparr>pr_examples = example_questions, pr_answer = original_answer\<rparr>
       max_retries 0 calls"

section \<open>generate\_paraphrases.py: checkpoint store and artifact writer\<close>

text \<open>
  The state the orchestrator works on. The progress file holds the text of an integer
  or is absent or blank (\<open>None\<close>). The output directory maps a file name to the records
  \<open>csv.writer\<close> wrote, in the order the files were created. \<open>requests\<close> counts the calls
  of the external service, and the three counters are the local variables of
  \<open>run_paraphrase_generation\<close>.

  Two fields are not variables of the source: \<open>gen_trace\<close> records the value of the loop
  variable \<open>i\<close> each time \<open>generate_questions_with_gpt5\<close> is called, and \<open>item_trace\<close>
  records ordinal, tag and outcome of each iteration at the place where the source logs
  the outcome.
\<close>

type_synonym csv_file = "str list list"

datatype outcome = SUCCESS | FAILED | SKIPPED

record state =
  progress_file :: "int option"
  individual_tags :: "(str \<times> csv_file) list"
  requests :: nat
  success_count :: nat
  failure_count :: nat
  skipped_count :: nat
  gen_trace :: "int list"
  item_trace :: "(int \<times> str \<times> outcome) list"

definition get_last_processed_index :: "state \<Rightarrow> int" where
  "get_last_processed_index st = (case progress_file st of Some index \<Rightarrow> index | None \<Rightarrow> - 1)"

definition update_progress :: "int \<Rightarrow> state \<Rightarrow> state" where
  "update_progress index st = st\<lparr>progress_file := Some index\<rparr>"

text \<open>
  \<open>save_individual_csv\<close>: the file \<open>tag_name.csv\<close> is opened for writing, which replaces
  an older file of that name, and receives the header and one record per question.
\<close>

definition save_individual_csv :: "int \<Rightarrow> str \<Rightarrow> str list \<Rightarrow> state \<Rightarrow> state" where
  "save_individual_csv index tag_name generated_questions st =
     st\<lparr>individual_tags :=
          AList.update (tag_name @ py ''.csv'')
            ([py ''question'', py ''tag'']
               # map (\<lambda>question. [question, tag_name]) generated_questions)
            (individual_tags st)\<rparr>"

section \<open>generate\_paraphrases.py: the orchestrator\<close>

text \<open>What \<open>run_paraphrase_generation\<close> has loaded when its loop starts.\<close>

record env =
  unique_tags :: "str list"
  tag_to_answer :: "str \<rightharpoonup> str"
  tag_questions :: "str \<rightharpoonup> str list"
  gen_service :: service
  rand_sample :: "str list \<Rightarrow> nat \<Rightarrow> str list"

definition skip_item :: "int \<Rightarrow> str \<Rightarrow> state \<Rightarrow> state" where
  "skip_item i tag_name st =
     update_progress i
       (st\<lparr>skipped_count := skipped_count st + 1,
           item_trace := item_trace st @ [(i, tag_name, SKIPPED)]\<rparr>)"

text \<open>
  The body of the loop \<open>for i in range(start_index, total_tags)\<close>, after
  \<open>tag_name = unique_tags[i]\<close>. The test \<open>questions and len(questions) == 200\<close> fails for
  \<open>None\<close> and for the empty list.
\<close>

definition process_tag :: "env \<Rightarrow> int \<Rightarrow> str \<Rightarrow> state \<Rightarrow> state" where
  "process_tag e i tag_name st =
     (case tag_to_answer e tag_name of
        None \<Rightarrow> skip_item i tag_name st
      | Some original_answer \<Rightarrow>
          (let examples = get_random_examples (rand_sample e) (tag_questions e) tag_name 30
           in if examples = [] then skip_item i tag_name st
              else
                (let (questions, calls) =
                       generate_questions_with_gpt5 (gen_service e) original_answer examples 3
                         (requests st);
                     st1 = st\<lparr>requests := calls, gen_trace := gen_trace st @ [i]\<rparr>
                 in case questions of
                      Some qs \<Rightarrow>
                        if qs \<noteq> [] \<and> length qs = 200 then
                          (let st2 = save_individual_csv i tag_name qs st1;
                               st3 = update_progress i st2
                           in st3\<lparr>success_count := success_count st3 + 1,
                                  item_trace := item_trace st3 @ [(i, tag_name, SUCCESS)]\<rparr>)
                        else
                          update_progress i
                            (st1\<lparr>failure_count := failure_count st1 + 1,
                                 item_trace := item_trace st1 @ [(i, tag_name, FAILED)]\<rparr>)
                    | None \<Rightarrow>
                        update_progress i
                          (st1\<lparr>failure_count := failure_count st1 + 1,
                               item_trace := item_trace st1 @ [(i, tag_name, FAILED)]\<rparr>))))"

text \<open>
  The loop itself, from \<open>i\<close> up to but excluding \<open>stop\<close>. The source always runs it with
  \<open>stop = total_tags\<close>; a smaller \<open>stop\<close> gives the state after a prefix of the
  iterations. An index the list does not have raises IndexError, which ends the run
  and leaves the state as it is.
\<close>

function process_tags :: "env \<Rightarrow> int \<Rightarrow> int \<Rightarrow> state \<Rightarrow> py_error option \<times> state" where
  "process_tags e i stop st =
     (if stop \<le> i then (None, st)
      else
        (case py_index (unique_tags e) i of
           None \<Rightarrow> (Some IndexError, st)
         | Some tag_name \<Rightarrow> process_tags e (i + 1) stop (process_tag e i tag_name st)))"
  by pat_completeness auto
termination
  by (relation "measure (\<lambda>(e, i, stop, st). nat (stop - i))") auto

declare process_tags.simps [simp del]

text \<open>The check for previous progress: the start index, and the state after a reset.\<close>

definition resume_point :: "int \<Rightarrow> state \<Rightarrow> int \<times> state" where
  "resume_point total_tags st =
     (let last_processed = get_last_processed_index st;
          start_index = last_processed + 1
      in if total_tags \<le> start_index then (0, update_progress (- 1) st)
         else (start_index, st))"

definition process_all :: "env \<Rightarrow> state \<Rightarrow> py_error option \<times> state" where
  "process_all e st =
     (let total_tags = int (length (unique_tags e));
          (start_index, st1) = resume_point total_tags st
      in process_tags e start_index total_tags st1)"

text \<open>
  A new process: the counters and traces start empty, the progress file and the output
  directory are what earlier runs left.
\<close>

definition initial_state :: "int option \<Rightarrow> (str \<times> csv_file) list \<Rightarrow> state" where
  "initial_state progress files =
     \<lparr>progress_file = progress, individual_tags = files, requests = 0,
      success_count = 0, failure_count = 0, skipped_count = 0,
      gen_trace = [], item_trace = []\<rparr>"

record inputs =
  client_ok :: bool
  examples_rows :: "example_row list"
  answers_rows :: "answer_row list"
  test_mode :: bool
  test_tag_count :: int
  str_lower :: "str \<Rightarrow> str"
  service_of :: service
  random_sample :: "str list \<Rightarrow> nat \<Rightarrow> str list"

definition load_env :: "inputs \<Rightarrow> env" where
  "load_env inp =
     (let tags = get_unique_tags_from_questions (str_lower inp) (examples_rows inp)
      in \<lparr>unique_tags = (if test_mode inp then py_prefix tags (test_tag_count inp) else tags),
          tag_to_answer = load_answers_lookup (answers_rows inp),
          tag_questions = load_example_questions (examples_rows inp),
          gen_service = service_of inp,
          rand_sample = random_sample inp\<rparr>)"

text \<open>
  \<open>run_paraphrase_generation\<close>. The returned tuple of the source is
  \<open>(success_count, failure_count, skipped_count)\<close> of the final state.
\<close>

definition run_paraphrase_generation ::
  "inputs \<Rightarrow> int option \<Rightarrow> (str \<times> csv_file) list \<Rightarrow> py_error option \<times> state" where
  "run_paraphrase_generation inp progress files =
     (if \<not> client_ok inp then (None, initial_state progress files)
      else process_all (load_env inp) (initial_state progress files))"

section \<open>merge\_results.py\<close>

text \<open>
  A CSV file of the merge stage is modelled by the dictionaries \<open>csv.DictReader\<close> yields
  for it, each with the keys \<open>question\<close> and \<open>tag\<close>, as in every file
  \<open>save_individual_csv\<close> writes. A directory is the list of its entries in the order
  \<open>os.listdir\<close> returns them.
\<close>

record merged_row =
  row_question :: str
  row_tag :: str

type_synonym directory = "(str \<times> merged_row list) list"

definition endswith :: "str \<Rightarrow> str \<Rightarrow> bool" where
  "endswith s suffix =
     (length suffix \<le> length s \<and> drop (length s - length suffix) s = suffix)"

text \<open>
  \<open>get_sorted_csv_files\<close>. The source sorts the paths \<open>directory/filename\<close>; they share
  the prefix, so their order is the order of the file names.
\<close>

definition get_sorted_csv_files :: "directory \<Rightarrow> directory" where
  "get_sorted_csv_files dir =
     sort_key fst (filter (\<lambda>(filename, rows). endswith filename (py ''.csv'')) dir)"

text \<open>
  \<open>merge_csv_files\<close> returns the number of merged rows; the model also returns the rows
  the output file then holds (an output file without any row is empty).
\<close>

definition merge_csv_files :: "directory \<Rightarrow> merged_row list \<times> nat" where
  "merge_csv_files csv_files =
     (let merged_data =
            foldl (\<lambda>merged (filepath, rows). if rows \<noteq> [] then merged @ rows else merged)
              [] csv_files
      in (merged_data, length merged_data))"

text \<open>\<open>Counter(tags)\<close>: the tags in the order of their first occurrence, with their counts.\<close>

definition count_tag :: "(str \<times> nat) list \<Rightarrow> str \<Rightarrow> (str \<times> nat) list" where
  "count_tag c tag = AList.update tag (Suc (case map_of c tag of None \<Rightarrow> 0 | Some n \<Rightarrow> n)) c"

definition counter :: "str list \<Rightarrow> (str \<times> nat) list" where
  "counter tags = foldl count_tag [] tags"

text \<open>What \<open>validate_merged_file\<close> prints, as a record.\<close>

record report =
  actual_count :: nat
  row_count_matches :: bool
  unique_tag_count :: nat
  tags_with_wrong_count :: "str list"
  invalid_count :: nat

definition validate_merged_file :: "merged_row list \<Rightarrow> nat \<Rightarrow> report" where
  "validate_merged_file rows expected_count =
     (let tags = map row_tag rows;
          tag_counts = counter tags
      in \<lparr>actual_count = length rows,
          row_count_matches = (length rows = expected_count),
          unique_tag_count = length (remdups tags),
          tags_with_wrong_count = map fst (filter (\<lambda>(tag, count). count \<noteq> 10) tag_counts),
          invalid_count =
            length (filter (\<lambda>row. row_question row = [] \<or> row_tag row = []) rows)\<rparr>)"

text \<open>
  \<open>run_merge\<close>: \<open>None\<close> when the directory has no CSV file, else the rows of the output
  file and the validation report.
\<close>

definition run_merge :: "directory \<Rightarrow> (merged_row list \<times> report) option" where
  "run_merge input_dir =
     (let csv_files = get_sorted_csv_files input_dir
      in if csv_files = [] then None
         else
           (let (output_file, merged_count) = merge_csv_files csv_files
            in Some (output_file, validate_merged_file output_file merged_count)))"

section \<open>Notions of the specification\<close>

text \<open>
  The parsing of a response in the words of the specification: split on line breaks,
  discard blank lines, strip a leading enumeration prefix (digits followed by one of
  \<open>.\<close>, \<open>)\<close>, \<open>-\<close>), trim whitespace. A line whose leading digits are not followed by one
  of the three characters keeps them.
\<close>

definition spec_strip_enumeration :: "str \<Rightarrow> str" where
  "spec_strip_enumeration l =
     (let rest = dropWhile (\<lambda>c. c \<in> set (py ''0123456789'')) l
      in if rest = l then l
         else (case rest of
                 [] \<Rightarrow> l
               | c # r \<Rightarrow> if c \<in> set (py ''.)-'') then r else l))"

definition spec_parse :: "str \<Rightarrow> str list" where
  "spec_parse response =
     map (\<lambda>l. strip (spec_strip_enumeration l))
       (filter (\<lambda>l. strip l \<noteq> []) (split_nl response))"

text \<open>
  A response whose output text parses to fewer than 200 questions (an output text that
  is blank after stripping parses to none).
\<close>

definition short_response :: "response \<Rightarrow> bool" where
  "short_response r =
     (case r of Fault \<Rightarrow> False
      | Output output_text \<Rightarrow> length (parse_questions (strip output_text)) < 200)"

text \<open>An attempt that makes the client try again: a fault or a short response.\<close>

definition failed_response :: "response \<Rightarrow> bool" where
  "failed_response r =
     (case r of Fault \<Rightarrow> True
      | Output output_text \<Rightarrow> length (parse_questions (strip output_text)) < 200)"

section \<open>A concrete run\<close>

text \<open>
  Two tags with an answer and one example each, and a service that always raises: every
  item is attempted three times and ends FAILED.
\<close>

definition demo_env :: env where
  "demo_env =
     \<lparr>unique_tags = [py ''nid_card'', py ''voting''],
      tag_to_answer = [py ''nid_card'' \<mapsto> py ''a1'', py ''voting'' \<mapsto> py ''a2''],
      tag_questions = [py ''nid_card'' \<mapsto> [py ''q1''], py ''voting'' \<mapsto> [py ''q2'']],
      gen_service = (\<lambda>n p. Fault),
      rand_sample = (\<lambda>xs n. take n xs)\<rparr>"

text \<open>
  A response of 200 lines, each of them \<open>3G\<close>; \<open>join_nl\<close> is \<open>'\n'.join\<close>.
\<close>

fun join_nl :: "str list \<Rightarrow> str" where
  "join_nl [] = []"
| "join_nl [l] = l"
| "join_nl (l # m # ls) = l @ 10 # join_nl (m # ls)"

definition demo_response :: str where
  "demo_response = join_nl (replicate 200 (py ''3G''))"

text \<open>The same run against a service that always answers with that response.\<close>

definition demo_env_success :: env where
  "demo_env_success = demo_env\<lparr>gen_service := (\<lambda>n p. Output demo_response)\<rparr>"

text \<open>
  An examples source whose only row has a tag with a leading space, and one that
  also has a row with the same tag unpadded.
\<close>

definition padded_rows :: "example_row list" where
  "padded_rows = [\<lparr>ex_question = py ''q1'', ex_tag = py '' voting''\<rparr>]"

definition mixed_rows :: "example_row list" where
  "mixed_rows =
     [\<lparr>ex_question = py ''q1'', ex_tag = py '' voting''\<rparr>,
      \<lparr>ex_question = py ''q2'', ex_tag = py ''voting''\<rparr>]"

text \<open>
  A directory with two artifacts of one and two rows and a file that is no CSV file.
\<close>

definition demo_dir :: directory where
  "demo_dir =
     [(py ''voting.csv'', [\<lparr>row_question = py ''q1'', row_tag = py ''voting''\<rparr>]),
      (py ''notes.txt'', []),
      (py ''nid_card.csv'', [\<lparr>row_question = py ''q2'', row_tag = py ''nid_card''\<rparr>,
                            \<lparr>row_question = py ''q3'', row_tag = py ''nid_card''\<rparr>])]"

section \<open>Properties of the generation client\<close>

lemmas str_defs = py_def strip_def lstrip_def rstrip_def lstrip_chars_def isspace_def
  clean_line_def parse_questions_def

lemma parse_questions_Nil: "parse_questions [] = []"
  by (simp add: str_defs)

lemma attempts_all_short:
  "(\<And>a. a < max_retries - attempt \<Longrightarrow> short_response (svc (calls + a) p)) \<Longrightarrow>
   attempts svc p max_retries attempt calls = (None, calls + (max_retries - attempt))"
proof (induction svc p max_retries attempt calls rule: attempts.induct)
  case (1 svc p max_retries attempt calls)
  show ?case
  proof (cases "max_retries \<le> attempt")
    case True
    then show ?thesis by (simp add: attempts.simps [of svc p max_retries attempt calls])
  next
    case False
    then have lt: "attempt < max_retries" by simp
    from "1.prems" [of 0] lt have "short_response (svc calls p)" by simp
    then obtain t where t: "svc calls p = Output t"
      and len: "length (parse_questions (strip t)) < 200"
      by (auto simp: short_response_def split: response.splits)
    have rest: "\<And>a. a < max_retries - Suc attempt \<Longrightarrow> short_response (svc (Suc calls + a) p)"
    proof -
      fix a assume "a < max_retries - Suc attempt"
      then have "Suc a < max_retries - attempt" by simp
      from "1.prems" [OF this] show "short_response (svc (Suc calls + a) p)" by simp
    qed
    show ?thesis
    proof (cases "attempt < max_retries - 1")
      case True
      have ih: "attempts svc p max_retries (Suc attempt) (Suc calls) =
                  (None, Suc calls + (max_retries - Suc attempt))"
      proof (cases "strip t = []")
        case True
        from "1.IH"(2) [OF False t refl True \<open>attempt < max_retries - 1\<close> rest]
        show ?thesis .
      next
        case ne: False
        from "1.IH"(3) [OF False t refl ne refl len \<open>attempt < max_retries - 1\<close> rest]
        show ?thesis .
      qed
      have "attempts svc p max_retries attempt calls =
              attempts svc p max_retries (Suc attempt) (Suc calls)"
        using lt t len True
        by (simp add: attempts.simps [of svc p max_retries attempt calls] Let_def)
      with ih lt show ?thesis by simp
    next
      case last: False
      with lt have eq: "max_retries - attempt = 1" by simp
      have "attempts svc p max_retries attempt calls = (None, Suc calls)"
        using lt t len last
        by (simp add: attempts.simps [of svc p max_retries attempt calls] Let_def)
      with eq show ?thesis by simp
    qed
  qed
qed

text \<open>
  C3. If every attempt yields a response that parses to fewer than 200 questions, the
  client issues exactly \<open>max_retries\<close> requests (the request counter advances by
  \<open>max_retries\<close>) and returns \<open>None\<close>, a value and not an exception, which differs from
  the empty list that stands for "no examples".
\<close>

theorem generate_retry_bound:
  assumes "\<forall>a<max_retries. short_response
             (svc (calls + a) \<lparr>pr_examples = example_questions, pr_answer = original_answer\<rparr>)"
  shows "generate_questions_with_gpt5 svc original_answer example_questions max_retries calls
           = (None, calls + max_retries)
         \<and> fst (generate_questions_with_gpt5 svc original_answer example_questions max_retries calls)
           \<noteq> Some []"
proof -
  have "generate_questions_with_gpt5 svc original_answer example_questions max_retries calls
          = (None, calls + (max_retries - 0))"
    unfolding generate_questions_with_gpt5_def
    by (rule attempts_all_short) (use assms in simp)
  then show ?thesis by simp
qed

theorem generate_retry_bound_witness:
  "short_response (Output (py ''1. a b''))
   \<and> generate_questions_with_gpt5 (\<lambda>n p. Output (py ''1. a b'')) (py ''ans'') [py ''q''] 3 0
       = (None, 3)"
proof -
  have short: "short_response (Output (py ''1. a b''))"
    by (simp add: short_response_def str_defs)
  then have "\<forall>a<3. short_response ((\<lambda>n p. Output (py ''1. a b'')) (0 + a)
        \<lparr>pr_examples = [py ''q''], pr_answer = py ''ans''\<rparr>)"
    by simp
  from generate_retry_bound [OF this] short show ?thesis by simp
qed

section \<open>Properties of the orchestrator\<close>

lemma process_tag_progress: "progress_file (process_tag e i t st) = Some i"
  by (simp add: process_tag_def skip_item_def update_progress_def save_individual_csv_def Let_def
      split: option.splits prod.splits)

lemma process_tag_gen_trace:
  "gen_trace (process_tag e i t st) = gen_trace st \<or> gen_trace (process_tag e i t st) = gen_trace st @ [i]"
  by (simp add: process_tag_def skip_item_def update_progress_def save_individual_csv_def Let_def
      split: option.splits prod.splits)

lemma process_tag_item_trace:
  "map fst (item_trace (process_tag e i t st)) = map fst (item_trace st) @ [i]"
  by (simp add: process_tag_def skip_item_def update_progress_def save_individual_csv_def Let_def
      split: option.splits prod.splits)

lemma py_index_in_range: "0 \<le> i \<Longrightarrow> i < int (length xs) \<Longrightarrow> py_index xs i = Some (xs ! nat i)"
  by (simp add: py_index_def Let_def)

lemma process_tags_run:
  "0 \<le> i \<Longrightarrow> stop \<le> int (length (unique_tags e)) \<Longrightarrow>
   fst (process_tags e i stop st) = None
   \<and> map fst (item_trace (snd (process_tags e i stop st))) = map fst (item_trace st) @ [i..stop - 1]
   \<and> set (gen_trace (snd (process_tags e i stop st))) \<subseteq> set (gen_trace st) \<union> {i..<stop}
   \<and> progress_file (snd (process_tags e i stop st)) = (if i < stop then Some (stop - 1) else progress_file st)"
proof (induction e i stop st rule: process_tags.induct)
  case (1 e i stop st)
  show ?case
  proof (cases "stop \<le> i")
    case True
    then show ?thesis by (simp add: process_tags.simps [of e i stop st])
  next
    case False
    then have lt: "i < stop" by simp
    with "1.prems" have idx: "py_index (unique_tags e) i = Some (unique_tags e ! nat i)"
      by (simp add: py_index_in_range)
    let ?t = "unique_tags e ! nat i"
    let ?st = "process_tag e i ?t st"
    have unf: "process_tags e i stop st = process_tags e (i + 1) stop ?st"
      using False idx by (simp add: process_tags.simps [of e i stop st])
    from "1.prems" have "0 \<le> i + 1" by simp
    from "1.IH" [OF False idx this "1.prems"(2)]
    have ih: "fst (process_tags e (i + 1) stop ?st) = None"
      "map fst (item_trace (snd (process_tags e (i + 1) stop ?st))) = map fst (item_trace ?st) @ [i + 1..stop - 1]"
      "set (gen_trace (snd (process_tags e (i + 1) stop ?st))) \<subseteq> set (gen_trace ?st) \<union> {i + 1..<stop}"
      "progress_file (snd (process_tags e (i + 1) stop ?st)) = (if i + 1 < stop then Some (stop - 1) else progress_file ?st)"
      by simp_all
    have up: "[i..stop - 1] = i # [i + 1..stop - 1]"
      using lt by (simp add: upto_rec1)
    have g: "set (gen_trace ?st) \<subseteq> set (gen_trace st) \<union> {i}"
      using process_tag_gen_trace [of e i ?t st] by auto
    have c1: "fst (process_tags e i stop st) = None" using unf ih(1) by simp
    have c2: "map fst (item_trace (snd (process_tags e i stop st))) = map fst (item_trace st) @ [i..stop - 1]"
      using unf ih(2) up by (simp add: process_tag_item_trace)
    have c3: "set (gen_trace (snd (process_tags e i stop st))) \<subseteq> set (gen_trace st) \<union> {i..<stop}"
    proof
      fix x assume "x \<in> set (gen_trace (snd (process_tags e i stop st)))"
      with unf have "x \<in> set (gen_trace (snd (process_tags e (i + 1) stop ?st)))" by simp
      with ih(3) have "x \<in> set (gen_trace ?st) \<or> x \<in> {i + 1..<stop}" by blast
      with g have "x \<in> set (gen_trace st) \<or> x = i \<or> x \<in> {i + 1..<stop}" by blast
      with lt show "x \<in> set (gen_trace st) \<union> {i..<stop}" by auto
    qed
    have c4: "progress_file (snd (process_tags e i stop st)) = Some (stop - 1)"
    proof (cases "i + 1 < stop")
      case True
      with ih(4) unf show ?thesis by simp
    next
      case False
      with lt have "stop - 1 = i" by simp
      with ih(4) False unf show ?thesis by (simp add: process_tag_progress)
    qed
    from c1 c2 c3 c4 lt show ?thesis by simp
  qed
qed

lemma process_tags_split:
  "i \<le> mid \<Longrightarrow> mid \<le> stop \<Longrightarrow> fst (process_tags e i mid st) = None \<Longrightarrow>
   process_tags e i stop st = process_tags e mid stop (snd (process_tags e i mid st))"
proof (induction e i mid st rule: process_tags.induct)
  case (1 e i mid st)
  show ?case
  proof (cases "mid \<le> i")
    case True
    with "1.prems" have "i = mid" by simp
    then show ?thesis by (simp add: process_tags.simps [of e mid mid st])
  next
    case False
    then have lt: "i < mid" by simp
    show ?thesis
    proof (cases "py_index (unique_tags e) i")
      case None
      with False "1.prems"(3) show ?thesis by (simp add: process_tags.simps [of e i mid st])
    next
      case (Some t)
      have unf: "process_tags e i mid st = process_tags e (i + 1) mid (process_tag e i t st)"
        using False Some by (simp add: process_tags.simps [of e i mid st])
      have unf2: "process_tags e i stop st = process_tags e (i + 1) stop (process_tag e i t st)"
        using lt "1.prems"(2) Some by (simp add: process_tags.simps [of e i stop st])
      from lt have "i + 1 \<le> mid" by simp
      from "1.IH" [OF False Some this "1.prems"(2)] "1.prems"(3) unf unf2
      show ?thesis by simp
    qed
  qed
qed

lemma run_paraphrase_generation_loop:
  "client_ok inp \<Longrightarrow>
   run_paraphrase_generation inp progress files
     = process_all (load_env inp) (initial_state progress files)"
  by (simp add: run_paraphrase_generation_def)

lemma run_paraphrase_generation_no_client:
  "\<not> client_ok inp \<Longrightarrow>
   run_paraphrase_generation inp progress files = (None, initial_state progress files)"
  by (simp add: run_paraphrase_generation_def)

lemmas run_defs = process_all_def resume_point_def initial_state_def
  get_last_processed_index_def update_progress_def process_tags.simps py_index_def
  process_tag_def get_random_examples_def generate_questions_with_gpt5_def attempts.simps
  skip_item_def save_individual_csv_def py_def Let_def

lemma demo_run0: "process_all demo_env (initial_state (Some 0) []) =
   (None, \<lparr>progress_file = Some 1, individual_tags = [], requests = 3,
      success_count = 0, failure_count = 1, skipped_count = 0,
      gen_trace = [1], item_trace = [(1, py ''voting'', FAILED)]\<rparr>)"
  by (simp add: demo_env_def run_defs)

lemma demo_run1: "process_all demo_env (initial_state (Some 1) []) =
   (None, \<lparr>progress_file = Some 1, individual_tags = [], requests = 6,
      success_count = 0, failure_count = 2, skipped_count = 0,
      gen_trace = [0, 1],
      item_trace = [(0, py ''nid_card'', FAILED), (1, py ''voting'', FAILED)]\<rparr>)"
  by (simp add: demo_env_def run_defs)

lemma process_all_resume:
  assumes "- 1 \<le> k" and "k < int (length (unique_tags e)) - 1"
  shows "fst (process_all e (initial_state (Some k) files)) = None"
    and "map fst (item_trace (snd (process_all e (initial_state (Some k) files))))
         = [k + 1..int (length (unique_tags e)) - 1]"
    and "\<forall>i\<in>set (gen_trace (snd (process_all e (initial_state (Some k) files)))). k < i"
proof -
  let ?M = "int (length (unique_tags e))"
  let ?st = "initial_state (Some k) files"
  have pa: "process_all e ?st = process_tags e (k + 1) ?M ?st"
    using assms
    by (simp add: process_all_def resume_point_def get_last_processed_index_def
        initial_state_def Let_def)
  from assms have "0 \<le> k + 1" by simp
  from process_tags_run [OF this order_refl, of e ?st]
  have r: "fst (process_tags e (k + 1) ?M ?st) = None"
    "map fst (item_trace (snd (process_tags e (k + 1) ?M ?st)))
       = map fst (item_trace ?st) @ [k + 1..?M - 1]"
    "set (gen_trace (snd (process_tags e (k + 1) ?M ?st)))
       \<subseteq> set (gen_trace ?st) \<union> {k + 1..<?M}"
    by simp_all
  have e1: "item_trace ?st = []" and e2: "gen_trace ?st = []"
    by (simp_all add: initial_state_def)
  from r(1) pa show "fst (process_all e ?st) = None" by simp
  from r(2) e1 pa show "map fst (item_trace (snd (process_all e ?st))) = [k + 1..?M - 1]"
    by simp
  from r(3) e2 pa show "\<forall>i\<in>set (gen_trace (snd (process_all e ?st))). k < i"
    by auto
qed

text \<open>
  C5. For a work list of size \<open>M\<close> and a stored checkpoint \<open>k < M - 1\<close> (\<open>- 1\<close> when
  nothing was processed yet), the run visits exactly the ordinals \<open>k + 1, ..., M - 1\<close>
  in this order, so it begins at \<open>k + 1\<close>, and every ordinal for which the generation
  client is called is greater than \<open>k\<close>.
\<close>

theorem resume_skips_processed:
  assumes "- 1 \<le> k" and "k < int (length (unique_tags e)) - 1"
  shows "fst (process_all e (initial_state (Some k) files)) = None
     \<and> map fst (item_trace (snd (process_all e (initial_state (Some k) files))))
         = [k + 1..int (length (unique_tags e)) - 1]
     \<and> (\<forall>i\<in>set (gen_trace (snd (process_all e (initial_state (Some k) files)))). k < i)"
  using process_all_resume [OF assms, of files] by simp

theorem resume_skips_processed_witness:
  "(- 1::int) \<le> 0 \<and> (0::int) < int (length (unique_tags demo_env)) - 1
   \<and> map fst (item_trace (snd (process_all demo_env (initial_state (Some 0) [])))) = [1]
   \<and> gen_trace (snd (process_all demo_env (initial_state (Some 0) []))) = [1]"
proof -
  have h1: "(- 1::int) \<le> 0" by simp
  have h2: "(0::int) < int (length (unique_tags demo_env)) - 1" by (simp add: demo_env_def)
  from resume_skips_processed [OF h1 h2, of "[]"]
  have "map fst (item_trace (snd (process_all demo_env (initial_state (Some 0) []))))
          = [0 + 1..int (length (unique_tags demo_env)) - 1]" by simp
  then have "map fst (item_trace (snd (process_all demo_env (initial_state (Some 0) [])))) = [1]"
    by (simp add: demo_env_def upto_rec1)
  with h1 h2 show ?thesis by (simp add: demo_run0)
qed

text \<open>
  C2, as the code has it. For a work list of size \<open>M\<close> and a stored checkpoint \<open>k\<close> with
  \<open>0 \<le> k \<le> M - 1\<close>: when \<open>k < M - 1\<close> the check for previous progress leaves the
  progress file as it is and gives the start index \<open>k + 1\<close>, the run visits the ordinals
  \<open>k + 1, ..., M - 1\<close> and calls the generation client for no ordinal up to \<open>k\<close>; when
  \<open>k = M - 1\<close> the check writes \<open>- 1\<close> to the progress file and gives the start index 0,
  and the run visits the ordinals \<open>0, ..., M - 1\<close>. In both cases the loop runs from
  that start index on that state.
\<close>

theorem rerun_resumes_or_restarts:
  assumes "0 \<le> k" and "k \<le> int (length (unique_tags e)) - 1"
  shows "fst (process_all e (initial_state (Some k) files)) = None
     \<and> map fst (item_trace (snd (process_all e (initial_state (Some k) files))))
         = (if k < int (length (unique_tags e)) - 1
            then [k + 1..int (length (unique_tags e)) - 1]
            else [0..int (length (unique_tags e)) - 1])
     \<and> (k < int (length (unique_tags e)) - 1 \<longrightarrow>
          (\<forall>i\<in>set (gen_trace (snd (process_all e (initial_state (Some k) files)))). k < i))
     \<and> resume_point (int (length (unique_tags e))) (initial_state (Some k) files)
         = (if k < int (length (unique_tags e)) - 1
            then (k + 1, initial_state (Some k) files)
            else (0, (initial_state (Some k) files)\<lparr>progress_file := Some (- 1)\<rparr>))
     \<and> process_all e (initial_state (Some k) files)
         = process_tags e
             (fst (resume_point (int (length (unique_tags e))) (initial_state (Some k) files)))
             (int (length (unique_tags e)))
             (snd (resume_point (int (length (unique_tags e))) (initial_state (Some k) files)))"
proof -
  let ?M = "int (length (unique_tags e))"
  let ?init = "initial_state (Some k) files"
  have rp: "resume_point ?M ?init
         = (if k < ?M - 1 then (k + 1, ?init) else (0, ?init\<lparr>progress_file := Some (- 1)\<rparr>))"
    using assms
    by (simp add: resume_point_def get_last_processed_index_def update_progress_def
        initial_state_def Let_def)
  have pa: "process_all e ?init
         = process_tags e (fst (resume_point ?M ?init)) ?M (snd (resume_point ?M ?init))"
    by (simp add: process_all_def Let_def split: prod.splits)
  have run: "fst (process_all e ?init) = None
     \<and> map fst (item_trace (snd (process_all e ?init)))
         = (if k < ?M - 1 then [k + 1..?M - 1] else [0..?M - 1])
     \<and> (k < ?M - 1 \<longrightarrow> (\<forall>i\<in>set (gen_trace (snd (process_all e ?init))). k < i))"
  proof (cases "k < ?M - 1")
    case True
    from assms(1) have "- 1 \<le> k" by simp
    from process_all_resume [OF this True, of files] True show ?thesis by simp
  next
    case False
    let ?reset = "?init\<lparr>progress_file := Some (- 1)\<rparr>"
    from False rp have rp0: "resume_point ?M ?init = (0, ?reset)" by simp
    have pa0: "process_all e ?init = process_tags e 0 ?M ?reset"
      by (simp only: pa rp0 fst_conv snd_conv)
    from process_tags_run [OF order_refl order_refl, of e ?reset]
    have r: "fst (process_tags e 0 ?M ?reset) = None"
      "map fst (item_trace (snd (process_tags e 0 ?M ?reset)))
         = map fst (item_trace ?reset) @ [0..?M - 1]"
      by simp_all
    have "item_trace ?reset = []" by (simp add: initial_state_def)
    with r pa0 False show ?thesis by simp
  qed
  from run rp pa show ?thesis by blast
qed

theorem rerun_resumes_or_restarts_witness:
  "(0::int) \<le> 0 \<and> (0::int) \<le> int (length (unique_tags demo_env)) - 1
   \<and> (0::int) < int (length (unique_tags demo_env)) - 1
   \<and> resume_point (int (length (unique_tags demo_env))) (initial_state (Some 0) [])
       = (1, initial_state (Some 0) [])
   \<and> map fst (item_trace (snd (process_all demo_env (initial_state (Some 0) [])))) = [1]
   \<and> gen_trace (snd (process_all demo_env (initial_state (Some 0) []))) = [1]
   \<and> (0::int) \<le> 1 \<and> (1::int) \<le> int (length (unique_tags demo_env)) - 1
   \<and> resume_point (int (length (unique_tags demo_env))) (initial_state (Some 1) [])
       = (0, (initial_state (Some 1) [])\<lparr>progress_file := Some (- 1)\<rparr>)
   \<and> map fst (item_trace (snd (process_all demo_env (initial_state (Some 1) [])))) = [0, 1]"
proof -
  have m: "int (length (unique_tags demo_env)) = 2" by (simp add: demo_env_def)
  have a1: "(0::int) \<le> 0" and a2: "(0::int) \<le> int (length (unique_tags demo_env)) - 1"
    and a3: "(0::int) < int (length (unique_tags demo_env)) - 1"
    by (simp_all add: m)
  have b1: "(0::int) \<le> 1" and b2: "(1::int) \<le> int (length (unique_tags demo_env)) - 1"
    by (simp_all add: m)
  note ta = rerun_resumes_or_restarts [OF a1 a2, of "[]"]
  note tb = rerun_resumes_or_restarts [OF b1 b2, of "[]"]
  from ta have ra: "resume_point (int (length (unique_tags demo_env)))
      (initial_state (Some 0) [])
       = (if 0 < int (length (unique_tags demo_env)) - 1
          then (0 + 1, initial_state (Some 0) [])
          else (0, (initial_state (Some 0) [])\<lparr>progress_file := Some (- 1)\<rparr>))"
    by blast
  from ta have ia: "map fst (item_trace (snd (process_all demo_env
      (initial_state (Some 0) []))))
       = (if 0 < int (length (unique_tags demo_env)) - 1
          then [0 + 1..int (length (unique_tags demo_env)) - 1]
          else [0..int (length (unique_tags demo_env)) - 1])"
    by blast
  from tb have rb: "resume_point (int (length (unique_tags demo_env)))
      (initial_state (Some 1) [])
       = (if 1 < int (length (unique_tags demo_env)) - 1
          then (1 + 1, initial_state (Some 1) [])
          else (0, (initial_state (Some 1) [])\<lparr>progress_file := Some (- 1)\<rparr>))"
    by blast
  from tb have ib: "map fst (item_trace (snd (process_all demo_env
      (initial_state (Some 1) []))))
       = (if 1 < int (length (unique_tags demo_env)) - 1
          then [1 + 1..int (length (unique_tags demo_env)) - 1]
          else [0..int (length (unique_tags demo_env)) - 1])"
    by blast
  from ra have ra': "resume_point (int (length (unique_tags demo_env)))
      (initial_state (Some 0) []) = (1, initial_state (Some 0) [])" by (simp add: m)
  from ia have ia': "map fst (item_trace (snd (process_all demo_env
      (initial_state (Some 0) [])))) = [1]" by (simp add: m upto_rec1)
  from rb have rb': "resume_point (int (length (unique_tags demo_env)))
      (initial_state (Some 1) [])
       = (0, (initial_state (Some 1) [])\<lparr>progress_file := Some (- 1)\<rparr>)" by (simp add: m)
  from ib have ib': "map fst (item_trace (snd (process_all demo_env
      (initial_state (Some 1) [])))) = [0, 1]" by (simp add: m upto_rec1)
  have g: "gen_trace (snd (process_all demo_env (initial_state (Some 0) []))) = [1]"
    by (simp add: demo_run0)
  from a1 a2 a3 b1 b2 ra' ia' rb' ib' g show ?thesis by blast
qed

text \<open>
  C2 at \<open>k = M - 1\<close>: with two tags and the stored checkpoint 1, the run begins at
  ordinal 0, not at ordinal 2, and calls the generation client for the ordinals 0 and 1.
\<close>

theorem rerun_after_last_ordinal_counterexample:
  "(0::int) \<le> 1 \<and> (1::int) \<le> int (length (unique_tags demo_env)) - 1
   \<and> map fst (item_trace (snd (process_all demo_env (initial_state (Some 1) [])))) = [0, 1]
   \<and> gen_trace (snd (process_all demo_env (initial_state (Some 1) []))) = [0, 1]"
  by (simp add: demo_run1) (simp add: demo_env_def)

text \<open>
  C6. If the stored checkpoint plus one is at least the size of the work list, the run
  writes \<open>- 1\<close> to the progress file, starts its loop at ordinal 0 on that state, and
  visits the ordinals \<open>0, ..., M - 1\<close>.
\<close>

theorem stale_checkpoint_reset:
  assumes "int (length (unique_tags e)) \<le> k + 1"
  shows "resume_point (int (length (unique_tags e))) (initial_state (Some k) files)
           = (0, (initial_state (Some k) files)\<lparr>progress_file := Some (- 1)\<rparr>)
     \<and> process_all e (initial_state (Some k) files)
           = process_tags e 0 (int (length (unique_tags e)))
               ((initial_state (Some k) files)\<lparr>progress_file := Some (- 1)\<rparr>)
     \<and> fst (process_all e (initial_state (Some k) files)) = None
     \<and> map fst (item_trace (snd (process_all e (initial_state (Some k) files))))
           = [0..int (length (unique_tags e)) - 1]"
proof -
  let ?M = "int (length (unique_tags e))"
  let ?st = "(initial_state (Some k) files)\<lparr>progress_file := Some (- 1)\<rparr>"
  have rp: "resume_point ?M (initial_state (Some k) files) = (0, ?st)"
    using assms
    by (simp add: resume_point_def get_last_processed_index_def update_progress_def
        initial_state_def Let_def)
  then have pa: "process_all e (initial_state (Some k) files) = process_tags e 0 ?M ?st"
    by (simp add: process_all_def Let_def)
  from process_tags_run [OF order_refl order_refl, of e ?st]
  have r: "fst (process_tags e 0 ?M ?st) = None"
    "map fst (item_trace (snd (process_tags e 0 ?M ?st))) = map fst (item_trace ?st) @ [0..?M - 1]"
    by simp_all
  have "item_trace ?st = []" by (simp add: initial_state_def)
  with r rp pa show ?thesis by simp
qed

theorem stale_checkpoint_reset_witness:
  "int (length (unique_tags demo_env)) \<le> 5 + 1
   \<and> fst (resume_point (int (length (unique_tags demo_env))) (initial_state (Some 5) [])) = 0
   \<and> progress_file (snd (resume_point (int (length (unique_tags demo_env)))
        (initial_state (Some 5) []))) = Some (- 1)
   \<and> map fst (item_trace (snd (process_all demo_env (initial_state (Some 5) [])))) = [0, 1]"
proof -
  have h: "int (length (unique_tags demo_env)) \<le> 5 + 1" by (simp add: demo_env_def)
  note w = stale_checkpoint_reset [OF h, of "[]"]
  from w have a: "resume_point (int (length (unique_tags demo_env))) (initial_state (Some 5) [])
           = (0, (initial_state (Some 5) [])\<lparr>progress_file := Some (- 1)\<rparr>)"
    by (rule conjunct1)
  from w have b: "map fst (item_trace (snd (process_all demo_env (initial_state (Some 5) []))))
           = [0..int (length (unique_tags demo_env)) - 1]"
    by blast
  from b have "map fst (item_trace (snd (process_all demo_env (initial_state (Some 5) [])))) = [0, 1]"
    by (simp add: demo_env_def upto_rec1)
  with h a show ?thesis by simp
qed

text \<open>
  C7. Whatever the outcome of the item at ordinal \<open>j\<close>, the progress file holds \<open>j\<close>
  after it; and the loop started at \<open>s \<le> j\<close> and stopped after the item \<open>j\<close> raises
  nothing and leaves \<open>j\<close> in the progress file. The stopped loop is a prefix of the
  full one: the full loop continues from its state at ordinal \<open>j + 1\<close>.
\<close>

theorem checkpoint_follows_item:
  assumes "0 \<le> s" and "s \<le> j" and "j < int (length (unique_tags e))"
  shows "progress_file (process_tag e j tag_name st) = Some j
     \<and> fst (process_tags e s (j + 1) st) = None
     \<and> progress_file (snd (process_tags e s (j + 1) st)) = Some j
     \<and> process_tags e s (int (length (unique_tags e))) st
         = process_tags e (j + 1) (int (length (unique_tags e))) (snd (process_tags e s (j + 1) st))"
proof -
  from assms have le: "j + 1 \<le> int (length (unique_tags e))" and sl: "s \<le> j + 1" by simp_all
  from process_tags_run [OF assms(1) le, of st] assms(2)
  have r: "fst (process_tags e s (j + 1) st) = None"
    "progress_file (snd (process_tags e s (j + 1) st)) = Some j"
    by simp_all
  from process_tags_split [OF sl le r(1)] r process_tag_progress [of e j tag_name st]
  show ?thesis by simp
qed

theorem checkpoint_follows_item_witness:
  "(0::int) \<le> 0 \<and> (0::int) < int (length (unique_tags demo_env))
   \<and> progress_file (snd (process_tags demo_env 0 (0 + 1) (initial_state None []))) = Some 0
   \<and> item_trace (snd (process_tags demo_env 0 (0 + 1) (initial_state None [])))
       = [(0, py ''nid_card'', FAILED)]"
proof -
  have h1: "(0::int) \<le> 0" by simp
  have h3: "(0::int) < int (length (unique_tags demo_env))" by (simp add: demo_env_def)
  from checkpoint_follows_item [OF h1 h1 h3, of "[]" "initial_state None []"]
  have "progress_file (snd (process_tags demo_env 0 (0 + 1) (initial_state None []))) = Some 0"
    by simp
  moreover have "item_trace (snd (process_tags demo_env 0 (0 + 1) (initial_state None [])))
       = [(0, py ''nid_card'', FAILED)]"
    by (simp add: demo_env_def run_defs)
  ultimately show ?thesis using h1 h3 by simp
qed

section \<open>Properties of merge and validation\<close>

lemma merged_data_concat:
  "foldl (\<lambda>merged (filepath, rows). if rows \<noteq> [] then merged @ rows else merged) acc files
     = acc @ concat (map snd files)"
  by (induction files arbitrary: acc) (auto split: prod.splits)

lemma demo_sorted: "get_sorted_csv_files demo_dir =
   [(py ''nid_card.csv'', [\<lparr>row_question = py ''q2'', row_tag = py ''nid_card''\<rparr>,
                          \<lparr>row_question = py ''q3'', row_tag = py ''nid_card''\<rparr>]),
    (py ''voting.csv'', [\<lparr>row_question = py ''q1'', row_tag = py ''voting''\<rparr>])]"
  by (simp add: demo_dir_def get_sorted_csv_files_def endswith_def py_def)

lemma demo_merge: "run_merge demo_dir = Some
   ([\<lparr>row_question = py ''q2'', row_tag = py ''nid_card''\<rparr>,
     \<lparr>row_question = py ''q3'', row_tag = py ''nid_card''\<rparr>,
     \<lparr>row_question = py ''q1'', row_tag = py ''voting''\<rparr>],
    \<lparr>actual_count = 3, row_count_matches = True, unique_tag_count = 2,
     tags_with_wrong_count = [py ''nid_card'', py ''voting''], invalid_count = 0\<rparr>)"
  by (simp add: run_merge_def demo_sorted merge_csv_files_def validate_merged_file_def
      counter_def count_tag_def Let_def) (simp add: py_def)

text \<open>
  C9. Whenever \<open>run_merge\<close> produces an output, the expected count it passes to the
  validation is the number of rows it has just merged, which is also the number of rows
  the validation reads back: the row-count check passes for every directory, whatever
  the number of artifacts and of rows per artifact.
\<close>

theorem run_merge_counts_against_itself:
  assumes "run_merge input_dir = Some (output_file, rep)"
  shows "output_file = concat (map snd (get_sorted_csv_files input_dir))
     \<and> rep = validate_merged_file output_file (length output_file)
     \<and> actual_count rep = length output_file
     \<and> row_count_matches rep"
proof -
  from assms have ne: "get_sorted_csv_files input_dir \<noteq> []"
    by (auto simp: run_merge_def Let_def split: if_splits)
  have m: "merge_csv_files (get_sorted_csv_files input_dir)
             = (concat (map snd (get_sorted_csv_files input_dir)),
                length (concat (map snd (get_sorted_csv_files input_dir))))"
    by (simp add: merge_csv_files_def Let_def merged_data_concat)
  from assms ne m have o: "output_file = concat (map snd (get_sorted_csv_files input_dir))"
    and r: "rep = validate_merged_file output_file (length output_file)"
    by (auto simp: run_merge_def Let_def)
  from r have "actual_count rep = length output_file" "row_count_matches rep"
    by (simp_all add: validate_merged_file_def Let_def)
  with o r show ?thesis by simp
qed

theorem run_merge_counts_against_itself_witness:
  "run_merge demo_dir = Some
     ([\<lparr>row_question = py ''q2'', row_tag = py ''nid_card''\<rparr>,
       \<lparr>row_question = py ''q3'', row_tag = py ''nid_card''\<rparr>,
       \<lparr>row_question = py ''q1'', row_tag = py ''voting''\<rparr>],
      \<lparr>actual_count = 3, row_count_matches = True, unique_tag_count = 2,
       tags_with_wrong_count = [py ''nid_card'', py ''voting''], invalid_count = 0\<rparr>)
   \<and> row_count_matches
       \<lparr>actual_count = 3, row_count_matches = True, unique_tag_count = 2,
        tags_with_wrong_count = [py ''nid_card'', py ''voting''], invalid_count = 0\<rparr>"
proof -
  from run_merge_counts_against_itself [OF demo_merge]
  have "row_count_matches
       \<lparr>actual_count = 3, row_count_matches = True, unique_tag_count = 2,
        tags_with_wrong_count = [py ''nid_card'', py ''voting''], invalid_count = 0\<rparr>"
    by blast
  with demo_merge show ?thesis by simp
qed

lemma count_tag_run:
  "foldl count_tag c (replicate n t)
     = (if n = 0 then c
        else AList.update t (n + (case map_of c t of None \<Rightarrow> 0 | Some k \<Rightarrow> k)) c)"
proof (induction n arbitrary: c)
  case 0
  show ?case by simp
next
  case (Suc n)
  have m: "map_of (count_tag c t) t = Some (Suc (case map_of c t of None \<Rightarrow> 0 | Some k \<Rightarrow> k))"
    by (simp add: count_tag_def update_conv')
  show ?case
    by (simp add: Suc.IH m) (simp add: count_tag_def)
qed

lemma counter_two_blocks:
  assumes "a \<noteq> b" and "0 < m" and "0 < n"
  shows "counter (replicate m a @ replicate n b) = [(a, m), (b, n)]"
  using assms by (simp add: counter_def count_tag_run)

lemma map_of_count_tag:
  "map_of (count_tag c t) x
     = (if x = t then Some (Suc (case map_of c t of None \<Rightarrow> 0 | Some k \<Rightarrow> k)) else map_of c x)"
  by (simp add: count_tag_def update_conv')

lemma map_of_foldl_count_tag:
  "map_of (foldl count_tag c tags) x
     = (if x \<in> set tags \<or> x \<in> dom (map_of c)
        then Some (count_list tags x + (case map_of c x of None \<Rightarrow> 0 | Some k \<Rightarrow> k))
        else None)"
proof (induction tags arbitrary: c)
  case Nil
  show ?case by (auto split: option.splits)
next
  case (Cons t tags)
  show ?case by (auto simp: Cons.IH map_of_count_tag split: option.splits)
qed

lemma distinct_foldl_count_tag:
  "distinct (map fst c) \<Longrightarrow> distinct (map fst (foldl count_tag c tags))"
  by (induction tags arbitrary: c) (simp_all add: count_tag_def distinct_update)

lemma wrong_count_tags:
  "set (tags_with_wrong_count (validate_merged_file rows expected))
     = {t \<in> set (map row_tag rows). count_list (map row_tag rows) t \<noteq> 10}"
proof -
  let ?tags = "map row_tag rows"
  have d: "distinct (map fst (counter ?tags))"
    unfolding counter_def by (rule distinct_foldl_count_tag) simp
  have m: "\<And>x. map_of (counter ?tags) x = (if x \<in> set ?tags then Some (count_list ?tags x) else None)"
    unfolding counter_def by (simp add: map_of_foldl_count_tag)
  have "set (map fst (filter (\<lambda>(tag, count). count \<noteq> 10) (counter ?tags)))
          = {t. \<exists>n. map_of (counter ?tags) t = Some n \<and> n \<noteq> 10}"
    using d by (force simp: image_iff)
  also have "\<dots> = {t \<in> set ?tags. count_list ?tags t \<noteq> 10}"
    by (auto simp: m split: if_splits)
  finally show ?thesis by (simp add: validate_merged_file_def Let_def)
qed

text \<open>
  C1, on the code: the validation compares every count with the literal 10
  (\<open>wrong_count_tags\<close>). For a merged output in which one artifact contributed 199 rows
  and the other the full 200, it lists both tags, not only the short one.
\<close>

theorem validate_flags_full_artifacts:
  "tags_with_wrong_count
     (validate_merged_file
        (replicate 200 \<lparr>row_question = py ''q'', row_tag = py ''nid_card''\<rparr>
           @ replicate 199 \<lparr>row_question = py ''q'', row_tag = py ''voting''\<rparr>) 399)
     = [py ''nid_card'', py ''voting'']"
proof -
  have ne: "py ''nid_card'' \<noteq> py ''voting''" by (simp add: py_def)
  have "counter (replicate 200 (py ''nid_card'') @ replicate 199 (py ''voting''))
          = [(py ''nid_card'', 200), (py ''voting'', 199)]"
    by (rule counter_two_blocks) (use ne in simp_all)
  then show ?thesis by (simp add: validate_merged_file_def Let_def)
qed

section \<open>Parsing of responses\<close>

lemma strip_Nil: "strip [] = []"
  by (simp add: strip_def lstrip_def rstrip_def)

lemma clean_line_one_pass:
  "clean_line l =
     (let q = strip (dropWhile (\<lambda>c. c \<in> set (py ''. )-''))
                (dropWhile (\<lambda>c. c \<in> set (py ''0123456789'')) (strip l)))
      in if q = [] then None else Some q)"
proof (cases "strip l = []")
  case True
  then show ?thesis by (simp add: clean_line_def Let_def strip_Nil)
next
  case False
  then show ?thesis by (simp add: clean_line_def lstrip_chars_def Let_def)
qed

lemma map_filter_clean_line:
  "List.map_filter clean_line ls =
     filter (\<lambda>q. q \<noteq> [])
       (map (\<lambda>l. strip (dropWhile (\<lambda>c. c \<in> set (py ''. )-''))
                   (dropWhile (\<lambda>c. c \<in> set (py ''0123456789'')) (strip l)))) ls)"
proof (induction ls)
  case Nil
  show ?case by simp
next
  case (Cons l ls)
  then show ?case
    by (simp add: clean_line_one_pass [of l] Let_def)
qed

lemma parse_questions_one_pass:
  "parse_questions t =
     filter (\<lambda>q. q \<noteq> [])
       (map (\<lambda>l. strip (dropWhile (\<lambda>c. c \<in> set (py ''. )-''))
                   (dropWhile (\<lambda>c. c \<in> set (py ''0123456789'')) (strip l))))
            (split_nl t))"
  unfolding parse_questions_def by (rule map_filter_clean_line)

lemma split_nl_no_nl: "10 \<notin> set l \<Longrightarrow> split_nl l = [l]"
  by (induction l) auto

lemma split_nl_line: "10 \<notin> set l \<Longrightarrow> split_nl (l @ 10 # rest) = l # split_nl rest"
  by (induction l) auto

lemma split_nl_join_nl:
  "ls \<noteq> [] \<Longrightarrow> \<forall>l\<in>set ls. 10 \<notin> set l \<Longrightarrow> split_nl (join_nl ls) = ls"
  by (induction ls rule: join_nl.induct) (simp_all add: split_nl_no_nl split_nl_line)

lemma join_nl_replicate_Suc:
  "join_nl (replicate (Suc (Suc n)) l) = l @ 10 # join_nl (replicate (Suc n) l)"
  by simp

lemma hd_join_nl_replicate: "l \<noteq> [] \<Longrightarrow> hd (join_nl (replicate (Suc n) l)) = hd l"
  by (cases n) simp_all

lemma join_nl_replicate_nonempty: "l \<noteq> [] \<Longrightarrow> join_nl (replicate (Suc n) l) \<noteq> []"
  by (cases n) simp_all

lemma last_join_nl_replicate: "l \<noteq> [] \<Longrightarrow> last (join_nl (replicate (Suc n) l)) = last l"
proof (induction n)
  case 0
  show ?case by simp
next
  case (Suc n)
  from join_nl_replicate_nonempty [OF Suc.prems, of n] Suc show ?case by simp
qed

lemma strip_id: "s \<noteq> [] \<Longrightarrow> \<not> isspace (hd s) \<Longrightarrow> \<not> isspace (last s) \<Longrightarrow> strip s = s"
proof -
  assume ne: "s \<noteq> []" and h: "\<not> isspace (hd s)" and l: "\<not> isspace (last s)"
  from ne h have a: "dropWhile isspace s = s" by (cases s) simp_all
  from ne l have "dropWhile isspace (rev s) = rev s"
    by (cases "rev s") (simp_all add: last_rev [symmetric] hd_rev)
  with a show ?thesis by (simp add: strip_def lstrip_def rstrip_def)
qed

lemma map_filter_replicate:
  "f x = Some y \<Longrightarrow> List.map_filter f (replicate n x) = replicate n y"
  by (induction n) simp_all

lemma clean_line_3G: "clean_line (py ''3G'') = Some (py ''G'')"
  by (simp add: str_defs)

lemma demo_response_Suc: "demo_response = join_nl (replicate (Suc 199) (py ''3G''))"
  by (simp add: demo_response_def)

lemma strip_demo_response: "strip demo_response = demo_response"
proof -
  have ne: "py ''3G'' \<noteq> []" by (simp add: py_def)
  have h: "\<not> isspace (hd (py ''3G''))" and l: "\<not> isspace (last (py ''3G''))"
    by (simp_all add: py_def isspace_def)
  show ?thesis
    unfolding demo_response_Suc
    by (rule strip_id)
       (simp_all only: join_nl_replicate_nonempty [OF ne] hd_join_nl_replicate [OF ne]
          last_join_nl_replicate [OF ne] h l not_False_eq_True)
qed

lemma split_demo_response: "split_nl demo_response = replicate 200 (py ''3G'')"
proof -
  have "10 \<notin> set (py ''3G'')" by (simp add: py_def)
  then have "\<forall>l\<in>set (replicate 200 (py ''3G'')). 10 \<notin> set l" by simp
  moreover have "replicate 200 (py ''3G'') \<noteq> []" by simp
  ultimately show ?thesis unfolding demo_response_def by (rule split_nl_join_nl [rotated])
qed

lemma parse_demo_response: "parse_questions (strip demo_response) = replicate 200 (py ''G'')"
  by (simp only: strip_demo_response parse_questions_def split_demo_response
      map_filter_replicate [of clean_line, OF clean_line_3G])

lemma attempts_good:
  assumes "attempt < max_retries" and "svc calls p = Output t"
    and "200 \<le> length (parse_questions (strip t))"
  shows "attempts svc p max_retries attempt calls
           = (Some (take 200 (parse_questions (strip t))), Suc calls)"
proof -
  from assms(3) have "strip t \<noteq> []" by (auto simp: parse_questions_Nil)
  with assms show ?thesis
    by (simp add: attempts.simps [of svc p max_retries attempt calls] Let_def)
qed

lemma attempts_failed_step:
  assumes "attempt < max_retries - 1" and "failed_response (svc calls p)"
  shows "attempts svc p max_retries attempt calls
           = attempts svc p max_retries (Suc attempt) (Suc calls)"
proof -
  from assms(1) have lt: "\<not> max_retries \<le> attempt" by simp
  show ?thesis
  proof (cases "svc calls p")
    case Fault
    with assms(1) lt show ?thesis
      by (simp add: attempts.simps [of svc p max_retries attempt calls])
  next
    case (Output t)
    with assms(2) have "length (parse_questions (strip t)) < 200"
      by (simp add: failed_response_def)
    with assms(1) lt Output show ?thesis
      by (simp add: attempts.simps [of svc p max_retries attempt calls] Let_def)
  qed
qed

lemma attempts_first_good:
  assumes "attempt + j < max_retries"
    and "\<forall>a<j. failed_response (svc (calls + a) p)"
    and "svc (calls + j) p = Output t"
    and "200 \<le> length (parse_questions (strip t))"
  shows "attempts svc p max_retries attempt calls
           = (Some (take 200 (parse_questions (strip t))), Suc (calls + j))"
  using assms
proof (induction j arbitrary: attempt calls)
  case 0
  then show ?case using attempts_good [of attempt max_retries svc calls p t] by simp
next
  case (Suc j)
  from Suc.prems(1) have a: "attempt < max_retries - 1" by simp
  from Suc.prems(2) have f: "failed_response (svc calls p)" by force
  have rest: "\<forall>a<j. failed_response (svc (Suc calls + a) p)"
  proof (intro allI impI)
    fix a assume "a < j"
    then have "Suc a < Suc j" by simp
    with Suc.prems(2) have "failed_response (svc (calls + Suc a) p)" by blast
    then show "failed_response (svc (Suc calls + a) p)" by simp
  qed
  from Suc.prems(1) have b: "Suc attempt + j < max_retries" by simp
  from Suc.prems(3) have c: "svc (Suc calls + j) p = Output t" by simp
  from Suc.IH [OF b rest c Suc.prems(4)]
    attempts_failed_step [of attempt max_retries svc calls p, OF a f]
  show ?case by simp
qed

text \<open>
  C8, as the code has it. If the first response that is neither a fault nor short
  arrives at attempt \<open>j < max_retries\<close>, the client returns the first 200 entries of
  its parse, in order, after \<open>j + 1\<close> requests. A response is parsed by stripping it,
  splitting at line feeds, and turning each line into: the line stripped, without all
  its leading ASCII digits, then without all leading characters among \<open>.\<close>, space, \<open>)\<close>
  and \<open>-\<close>, stripped again; lines that end up empty are dropped. Leading digits are
  removed whatever follows them.
\<close>

theorem generate_returns_first_200:
  assumes "j < max_retries"
    and "\<forall>a<j. failed_response
           (svc (calls + a) \<lparr>pr_examples = example_questions, pr_answer = original_answer\<rparr>)"
    and "svc (calls + j) \<lparr>pr_examples = example_questions, pr_answer = original_answer\<rparr>
           = Output t"
    and "200 \<le> length (parse_questions (strip t))"
  shows "generate_questions_with_gpt5 svc original_answer example_questions max_retries calls
           = (Some (take 200 (parse_questions (strip t))), Suc (calls + j))
     \<and> length (take 200 (parse_questions (strip t))) = 200
     \<and> parse_questions (strip t)
         = filter (\<lambda>q. q \<noteq> [])
             (map (\<lambda>l. strip (dropWhile (\<lambda>c. c \<in> set (py ''. )-''))
                         (dropWhile (\<lambda>c. c \<in> set (py ''0123456789'')) (strip l))))
                  (split_nl (strip t)))"
proof -
  from assms(1) have "0 + j < max_retries" by simp
  from attempts_first_good [of 0 j max_retries svc calls
      "\<lparr>pr_examples = example_questions, pr_answer = original_answer\<rparr>" t,
      OF this assms(2) assms(3) assms(4)]
  have "generate_questions_with_gpt5 svc original_answer example_questions max_retries calls
           = (Some (take 200 (parse_questions (strip t))), Suc (calls + j))"
    by (simp add: generate_questions_with_gpt5_def)
  moreover from assms(4) have "length (take 200 (parse_questions (strip t))) = 200" by simp
  ultimately show ?thesis using parse_questions_one_pass [of "strip t"] by simp
qed

lemma take_200_demo: "take 200 (parse_questions (strip demo_response)) = replicate 200 (py ''G'')"
  by (simp add: parse_demo_response)

theorem generate_returns_first_200_witness:
  "(1::nat) < 3
   \<and> failed_response Fault
   \<and> 200 \<le> length (parse_questions (strip demo_response))
   \<and> generate_questions_with_gpt5 (\<lambda>n p. if n = 0 then Fault else Output demo_response)
        (py ''a'') [py ''q''] 3 0
       = (Some (replicate 200 (py ''G'')), 2)"
proof -
  let ?svc = "\<lambda>(n::nat) (p::prompt). if n = 0 then Fault else Output demo_response"
  let ?p = "\<lparr>pr_examples = [py ''q''], pr_answer = py ''a''\<rparr>"
  have h1: "(1::nat) < 3" by simp
  have f: "failed_response Fault" by (simp add: failed_response_def)
  then have h2: "\<forall>a<1. failed_response (?svc (0 + a) ?p)" by simp
  have h3: "?svc (0 + 1) ?p = Output demo_response" by simp
  have h4: "200 \<le> length (parse_questions (strip demo_response))"
    by (simp add: parse_demo_response)
  from generate_returns_first_200 [of 1 3 ?svc 0 "[py ''q'']" "py ''a''" demo_response,
      OF h1 h2 h3 h4]
  have "generate_questions_with_gpt5 ?svc (py ''a'') [py ''q''] 3 0
          = (Some (take 200 (parse_questions (strip demo_response))), Suc (0 + 1))"
    by (rule conjunct1)
  with h1 f h4 show ?thesis by (simp add: take_200_demo)
qed

lemma spec_parse_demo_response: "spec_parse demo_response = replicate 200 (py ''3G'')"
proof -
  have a: "strip (py ''3G'') = py ''3G''" by (simp add: str_defs)
  have b: "spec_strip_enumeration (py ''3G'') = py ''3G''"
    by (simp add: spec_strip_enumeration_def py_def)
  have c: "py ''3G'' \<noteq> []" by (simp add: py_def)
  show ?thesis
    by (simp add: spec_parse_def split_demo_response a b c)
qed

lemma demo_generate:
  "generate_questions_with_gpt5 (\<lambda>n p. Output demo_response) original_answer examples 3 calls
     = (Some (replicate 200 (py ''G'')), Suc calls)"
proof -
  have "attempts (\<lambda>n p. Output demo_response)
          \<lparr>pr_examples = examples, pr_answer = original_answer\<rparr> 3 0 calls
        = (Some (take 200 (parse_questions (strip demo_response))), Suc calls)"
    by (rule attempts_good) (simp_all add: parse_demo_response)
  then show ?thesis by (simp add: generate_questions_with_gpt5_def take_200_demo)
qed

text \<open>
  C8 on a line such as \<open>3G\<close>: the parsing of the specification keeps its digit, the
  code removes it. On the response of 200 such lines the client returns 200 times \<open>G\<close>,
  which is not the first 200 entries of the specification's parse.
\<close>

theorem leading_digits_counterexample:
  "200 \<le> length (spec_parse demo_response)
   \<and> take 200 (spec_parse demo_response) = replicate 200 (py ''3G'')
   \<and> fst (generate_questions_with_gpt5 (\<lambda>n p. Output demo_response) (py ''a'') [py ''q''] 3 0)
       = Some (replicate 200 (py ''G''))
   \<and> fst (generate_questions_with_gpt5 (\<lambda>n p. Output demo_response) (py ''a'') [py ''q''] 3 0)
       \<noteq> Some (take 200 (spec_parse demo_response))"
proof -
  have "py ''G'' \<noteq> py ''3G''" by (simp add: py_def)
  then have "replicate 200 (py ''G'') \<noteq> replicate 200 (py ''3G'')"
    by simp
  then show ?thesis by (simp add: spec_parse_demo_response demo_generate)
qed

section \<open>The artifact writer\<close>

lemma attempts_Some_length:
  "attempts svc p max_retries attempt calls = (Some qs, calls') \<Longrightarrow> length qs = 200"
proof (induction svc p max_retries attempt calls rule: attempts.induct)
  case (1 svc p max_retries attempt calls)
  from "1.prems" have lt: "\<not> max_retries \<le> attempt"
    by (auto simp: attempts.simps [of svc p max_retries attempt calls])
  show ?case
  proof (cases "svc calls p")
    case Fault
    with "1.prems" lt have a: "attempt < max_retries - 1"
      and r: "attempts svc p max_retries (Suc attempt) (Suc calls) = (Some qs, calls')"
      by (auto simp: attempts.simps [of svc p max_retries attempt calls] split: if_splits)
    from "1.IH"(1) [OF lt Fault a r] show ?thesis .
  next
    case (Output t)
    show ?thesis
    proof (cases "strip t = []")
      case True
      with "1.prems" lt Output have a: "attempt < max_retries - 1"
        and r: "attempts svc p max_retries (Suc attempt) (Suc calls) = (Some qs, calls')"
        by (auto simp: attempts.simps [of svc p max_retries attempt calls] split: if_splits)
      from "1.IH"(2) [OF lt Output refl True a r] show ?thesis .
    next
      case ne: False
      show ?thesis
      proof (cases "length (parse_questions (strip t)) < 200")
        case True
        with "1.prems" lt Output ne have a: "attempt < max_retries - 1"
          and r: "attempts svc p max_retries (Suc attempt) (Suc calls) = (Some qs, calls')"
          by (auto simp: attempts.simps [of svc p max_retries attempt calls] Let_def
              split: if_splits)
        from "1.IH"(3) [OF lt Output refl ne refl True a r] show ?thesis .
      next
        case False
        with "1.prems" lt Output ne have "qs = take 200 (parse_questions (strip t))"
          by (auto simp: attempts.simps [of svc p max_retries attempt calls] Let_def)
        with False show ?thesis by simp
      qed
    qed
  qed
qed

lemma generate_Some_length:
  "fst (generate_questions_with_gpt5 svc a ex max_retries calls) = Some qs \<Longrightarrow> length qs = 200"
  unfolding generate_questions_with_gpt5_def
  using attempts_Some_length [of svc _ max_retries 0 calls qs] by (metis prod.collapse)

lemma process_tag_no_answer:
  "tag_to_answer e tag_name = None \<Longrightarrow> process_tag e i tag_name st = skip_item i tag_name st"
  by (simp add: process_tag_def)

lemma process_tag_no_examples:
  "tag_to_answer e tag_name = Some a \<Longrightarrow>
   get_random_examples (rand_sample e) (tag_questions e) tag_name 30 = [] \<Longrightarrow>
   process_tag e i tag_name st = skip_item i tag_name st"
  by (simp add: process_tag_def)

lemma process_tag_failed:
  "tag_to_answer e tag_name = Some a \<Longrightarrow>
   get_random_examples (rand_sample e) (tag_questions e) tag_name 30 \<noteq> [] \<Longrightarrow>
   generate_questions_with_gpt5 (gen_service e) a
     (get_random_examples (rand_sample e) (tag_questions e) tag_name 30) 3 (requests st)
     = (None, calls) \<Longrightarrow>
   process_tag e i tag_name st =
     update_progress i
       (st\<lparr>requests := calls, gen_trace := gen_trace st @ [i],
           failure_count := failure_count st + 1,
           item_trace := item_trace st @ [(i, tag_name, FAILED)]\<rparr>)"
  by (simp add: process_tag_def Let_def)

lemma process_tag_success:
  "tag_to_answer e tag_name = Some a \<Longrightarrow>
   get_random_examples (rand_sample e) (tag_questions e) tag_name 30 \<noteq> [] \<Longrightarrow>
   generate_questions_with_gpt5 (gen_service e) a
     (get_random_examples (rand_sample e) (tag_questions e) tag_name 30) 3 (requests st)
     = (Some qs, calls) \<Longrightarrow>
   individual_tags (process_tag e i tag_name st) =
     AList.update (tag_name @ py ''.csv'')
       ([py ''question'', py ''tag''] # map (\<lambda>question. [question, tag_name]) qs)
       (individual_tags st)
   \<and> item_trace (process_tag e i tag_name st) = item_trace st @ [(i, tag_name, SUCCESS)]"
proof -
  assume a: "tag_to_answer e tag_name = Some a"
    and ex: "get_random_examples (rand_sample e) (tag_questions e) tag_name 30 \<noteq> []"
    and g: "generate_questions_with_gpt5 (gen_service e) a
     (get_random_examples (rand_sample e) (tag_questions e) tag_name 30) 3 (requests st)
     = (Some qs, calls)"
  from g have "length qs = 200" using generate_Some_length by (metis fst_conv)
  then have "qs \<noteq> []" by auto
  with a ex g \<open>length qs = 200\<close> show ?thesis
    by (simp add: process_tag_def Let_def save_individual_csv_def update_progress_def)
qed

text \<open>
  C4. Processing one work item changes the output directory only if the tag has an
  answer and examples and the generation client returned a list, which then has exactly
  200 entries. In that case the file \<open>tag.csv\<close> holds the header and one record
  \<open>(question, tag)\<close> for each of the 200 entries, 201 records in all. When the client
  returns \<open>None\<close> the directory is left as it was.
\<close>

theorem artifact_only_for_full_result:
  fixes e :: env and i :: int and tag_name :: str and st :: state
  defines "examples \<equiv> get_random_examples (rand_sample e) (tag_questions e) tag_name 30"
    and "st' \<equiv> process_tag e i tag_name st"
    and "file \<equiv> \<lambda>qs. [py ''question'', py ''tag''] # map (\<lambda>question. [question, tag_name]) qs"
  shows "(individual_tags st' \<noteq> individual_tags st \<longrightarrow>
            (\<exists>a qs. tag_to_answer e tag_name = Some a \<and> examples \<noteq> []
               \<and> fst (generate_questions_with_gpt5 (gen_service e) a examples 3 (requests st))
                   = Some qs
               \<and> length qs = 200))
     \<and> (\<forall>a qs. tag_to_answer e tag_name = Some a \<and> examples \<noteq> []
               \<and> fst (generate_questions_with_gpt5 (gen_service e) a examples 3 (requests st))
                   = Some qs
            \<longrightarrow> length qs = 200
               \<and> individual_tags st'
                   = AList.update (tag_name @ py ''.csv'') (file qs) (individual_tags st)
               \<and> map_of (individual_tags st') (tag_name @ py ''.csv'') = Some (file qs)
               \<and> length (file qs) = 201)
     \<and> (\<forall>a. tag_to_answer e tag_name = Some a
               \<and> fst (generate_questions_with_gpt5 (gen_service e) a examples 3 (requests st))
                   = None
            \<longrightarrow> individual_tags st' = individual_tags st)"
proof (intro conjI allI impI)
  assume ch: "individual_tags st' \<noteq> individual_tags st"
  show "\<exists>a qs. tag_to_answer e tag_name = Some a \<and> examples \<noteq> []
          \<and> fst (generate_questions_with_gpt5 (gen_service e) a examples 3 (requests st)) = Some qs
          \<and> length qs = 200"
  proof (cases "tag_to_answer e tag_name")
    case None
    from process_tag_no_answer [OF None, of i st] ch show ?thesis
      by (simp add: st'_def skip_item_def update_progress_def)
  next
    case (Some a)
    show ?thesis
    proof (cases "examples = []")
      case True
      from process_tag_no_examples [OF Some True [unfolded examples_def], of i st] ch
      show ?thesis by (simp add: st'_def skip_item_def update_progress_def)
    next
      case ne: False
      obtain r calls where g: "generate_questions_with_gpt5 (gen_service e) a examples 3
          (requests st) = (r, calls)"
        by (cases "generate_questions_with_gpt5 (gen_service e) a examples 3 (requests st)")
      show ?thesis
      proof (cases r)
        case None
        from process_tag_failed [OF Some ne [unfolded examples_def]
            g [unfolded examples_def None], of i] ch
        show ?thesis by (simp add: st'_def update_progress_def)
      next
        case (Some qs)
        from g Some have "fst (generate_questions_with_gpt5 (gen_service e) a examples 3
          (requests st)) = Some qs" by simp
        with generate_Some_length [OF this] \<open>tag_to_answer e tag_name = Some a\<close> ne
        show ?thesis by blast
      qed
    qed
  qed
next
  fix a qs
  assume h: "tag_to_answer e tag_name = Some a \<and> examples \<noteq> []
      \<and> fst (generate_questions_with_gpt5 (gen_service e) a examples 3 (requests st)) = Some qs"
  then obtain calls where g: "generate_questions_with_gpt5 (gen_service e) a examples 3
      (requests st) = (Some qs, calls)"
    by (cases "generate_questions_with_gpt5 (gen_service e) a examples 3 (requests st)") auto
  from h have len: "length qs = 200" using generate_Some_length by blast
  from h have a: "tag_to_answer e tag_name = Some a" and ne: "examples \<noteq> []" by simp_all
  from process_tag_success [OF a ne [unfolded examples_def] g [unfolded examples_def], of i]
  have w: "individual_tags st'
             = AList.update (tag_name @ py ''.csv'') (file qs) (individual_tags st)"
    by (simp add: st'_def file_def)
  show "length qs = 200" by (rule len)
  show "individual_tags st'
          = AList.update (tag_name @ py ''.csv'') (file qs) (individual_tags st)" by (rule w)
  show "map_of (individual_tags st') (tag_name @ py ''.csv'') = Some (file qs)"
    by (simp add: w update_conv')
  show "length (file qs) = 201" using len by (simp add: file_def)
next
  fix a
  assume h: "tag_to_answer e tag_name = Some a
      \<and> fst (generate_questions_with_gpt5 (gen_service e) a examples 3 (requests st)) = None"
  then obtain calls where g: "generate_questions_with_gpt5 (gen_service e) a examples 3
      (requests st) = (None, calls)"
    by (cases "generate_questions_with_gpt5 (gen_service e) a examples 3 (requests st)") auto
  from h have a: "tag_to_answer e tag_name = Some a" by simp
  show "individual_tags st' = individual_tags st"
  proof (cases "examples = []")
    case True
    from process_tag_no_examples [OF a True [unfolded examples_def], of i st]
    show ?thesis by (simp add: st'_def skip_item_def update_progress_def)
  next
    case False
    from process_tag_failed [OF a False [unfolded examples_def] g [unfolded examples_def], of i]
    show ?thesis by (simp add: st'_def update_progress_def)
  qed
qed

lemma demo_success_facts:
  "tag_to_answer demo_env_success (py ''voting'') = Some (py ''a2'')"
  "get_random_examples (rand_sample demo_env_success) (tag_questions demo_env_success)
     (py ''voting'') 30 = [py ''q2'']"
  "gen_service demo_env_success = (\<lambda>n p. Output demo_response)"
  by (simp_all add: demo_env_success_def demo_env_def get_random_examples_def py_def)

lemma demo_failure_facts:
  "tag_to_answer demo_env (py ''voting'') = Some (py ''a2'')"
  "get_random_examples (rand_sample demo_env) (tag_questions demo_env)
     (py ''voting'') 30 = [py ''q2'']"
  "fst (generate_questions_with_gpt5 (gen_service demo_env) (py ''a2'') [py ''q2''] 3 0) = None"
  by (simp_all add: demo_env_def get_random_examples_def generate_questions_with_gpt5_def
      attempts.simps py_def)

theorem artifact_only_for_full_result_witness:
  "tag_to_answer demo_env_success (py ''voting'') = Some (py ''a2'')
   \<and> get_random_examples (rand_sample demo_env_success) (tag_questions demo_env_success)
        (py ''voting'') 30 = [py ''q2'']
   \<and> fst (generate_questions_with_gpt5 (gen_service demo_env_success) (py ''a2'') [py ''q2'']
        3 0) = Some (replicate 200 (py ''G''))
   \<and> map_of (individual_tags (process_tag demo_env_success 1 (py ''voting'')
        (initial_state None []))) (py ''voting.csv'')
       = Some ([py ''question'', py ''tag''] # replicate 200 [py ''G'', py ''voting''])
   \<and> fst (generate_questions_with_gpt5 (gen_service demo_env) (py ''a2'') [py ''q2''] 3 0)
       = None
   \<and> individual_tags (process_tag demo_env 1 (py ''voting'') (initial_state None [])) = []"
proof -
  have r0: "requests (initial_state None []) = 0" and i0: "individual_tags (initial_state None []) = []"
    by (simp_all add: initial_state_def)
  have g: "fst (generate_questions_with_gpt5 (gen_service demo_env_success) (py ''a2'')
        [py ''q2''] 3 0) = Some (replicate 200 (py ''G''))"
    by (simp add: demo_success_facts(3) demo_generate)
  have name: "py ''voting'' @ py ''.csv'' = py ''voting.csv''" by (simp add: py_def)
  note t1 = artifact_only_for_full_result [of demo_env_success 1 "py ''voting''"
      "initial_state None []"]
  from t1 have "tag_to_answer demo_env_success (py ''voting'') = Some (py ''a2'')
        \<and> get_random_examples (rand_sample demo_env_success) (tag_questions demo_env_success)
             (py ''voting'') 30 \<noteq> []
        \<and> fst (generate_questions_with_gpt5 (gen_service demo_env_success) (py ''a2'')
             (get_random_examples (rand_sample demo_env_success)
                (tag_questions demo_env_success) (py ''voting'') 30) 3
             (requests (initial_state None []))) = Some (replicate 200 (py ''G''))
      \<longrightarrow> map_of (individual_tags (process_tag demo_env_success 1 (py ''voting'')
             (initial_state None []))) (py ''voting'' @ py ''.csv'')
          = Some ([py ''question'', py ''tag'']
               # map (\<lambda>question. [question, py ''voting'']) (replicate 200 (py ''G'')))"
    by blast
  with g have s: "map_of (individual_tags (process_tag demo_env_success 1 (py ''voting'')
        (initial_state None []))) (py ''voting.csv'')
       = Some ([py ''question'', py ''tag''] # replicate 200 [py ''G'', py ''voting''])"
    by (simp add: demo_success_facts(1,2) r0 name)
  note t2 = artifact_only_for_full_result [of demo_env 1 "py ''voting''"
      "initial_state None []"]
  from t2 have "tag_to_answer demo_env (py ''voting'') = Some (py ''a2'')
        \<and> fst (generate_questions_with_gpt5 (gen_service demo_env) (py ''a2'')
             (get_random_examples (rand_sample demo_env) (tag_questions demo_env)
                (py ''voting'') 30) 3 (requests (initial_state None []))) = None
      \<longrightarrow> individual_tags (process_tag demo_env 1 (py ''voting'') (initial_state None []))
          = individual_tags (initial_state None [])"
    by blast
  then have f: "individual_tags (process_tag demo_env 1 (py ''voting'') (initial_state None [])) = []"
    by (simp add: demo_failure_facts r0 i0)
  from s f g show ?thesis by (simp add: demo_success_facts(1,2) demo_failure_facts(3))
qed

section \<open>Tags with surrounding whitespace\<close>

lemma add_example_lookup:
  "add_example m row k = None \<longleftrightarrow>
     m k = None \<and> (ex_tag row = k \<longrightarrow> k = py ''fraction'' \<or> strip (ex_question row) = [])"
  by (auto simp: add_example_def)

lemma foldl_add_example_None:
  "foldl add_example m rows k = None \<longleftrightarrow>
     m k = None
     \<and> (\<forall>r\<in>set rows. ex_tag r = k \<longrightarrow> k = py ''fraction'' \<or> strip (ex_question r) = [])"
proof (induction rows arbitrary: m)
  case Nil
  show ?case by simp
next
  case (Cons row rows)
  show ?case by (simp add: Cons.IH add_example_lookup)
qed

lemma load_example_questions_None:
  "load_example_questions rows k = None \<longleftrightarrow>
     (\<forall>r\<in>set rows. ex_tag r = k \<longrightarrow> k = py ''fraction'' \<or> strip (ex_question r) = [])"
  by (simp add: load_example_questions_def foldl_add_example_None)

lemma strip_fraction: "strip (py ''fraction'') = py ''fraction''"
  by (simp add: str_defs)

lemma process_tag_skipped:
  "get_random_examples (rand_sample e) (tag_questions e) tag_name 30 = [] \<Longrightarrow>
   process_tag e i tag_name st = skip_item i tag_name st"
  by (simp add: process_tag_def split: option.splits)

lemma strip_padded: "strip (py '' voting'') = py ''voting''"
  by (simp add: str_defs)


text \<open>
  C10, as the code has it. For a row of the examples source whose tag changes under
  stripping, with a stripped form that is neither empty nor \<open>fraction\<close>: the work list
  contains the stripped tag; if the question of the row is not blank, the index has an
  entry under the unstripped tag; and if no row with a non-blank question carries the
  stripped form itself as its tag, the lookup for the work item is empty and the item
  ends SKIPPED, without a call of the generation client and without an artifact.
\<close>

theorem padded_tag_is_skipped:
  assumes "row \<in> set rows"
    and "strip (ex_tag row) \<noteq> ex_tag row"
    and "strip (ex_tag row) \<noteq> []"
    and "strip (ex_tag row) \<noteq> py ''fraction''"
  shows "strip (ex_tag row) \<in> set (get_unique_tags_from_questions lower rows)
     \<and> (strip (ex_question row) \<noteq> [] \<longrightarrow> load_example_questions rows (ex_tag row) \<noteq> None)
     \<and> ((\<forall>r\<in>set rows. ex_tag r = strip (ex_tag row) \<longrightarrow> strip (ex_question r) = []) \<longrightarrow>
          get_random_examples sample (load_example_questions rows) (strip (ex_tag row)) n = []
          \<and> (tag_questions e = load_example_questions rows \<longrightarrow>
               item_trace (process_tag e i (strip (ex_tag row)) st)
                 = item_trace st @ [(i, strip (ex_tag row), SKIPPED)]
               \<and> gen_trace (process_tag e i (strip (ex_tag row)) st) = gen_trace st
               \<and> individual_tags (process_tag e i (strip (ex_tag row)) st) = individual_tags st))"
proof (intro conjI impI)
  from assms(1,3,4) show "strip (ex_tag row) \<in> set (get_unique_tags_from_questions lower rows)"
    by (auto simp: get_unique_tags_from_questions_def)
next
  assume q: "strip (ex_question row) \<noteq> []"
  from assms(2) strip_fraction have "ex_tag row \<noteq> py ''fraction''" by auto
  with assms(1) q show "load_example_questions rows (ex_tag row) \<noteq> None"
    by (auto simp: load_example_questions_None)
next
  assume no: "\<forall>r\<in>set rows. ex_tag r = strip (ex_tag row) \<longrightarrow> strip (ex_question r) = []"
  then have none: "load_example_questions rows (strip (ex_tag row)) = None"
    by (simp add: load_example_questions_None)
  then show "get_random_examples sample (load_example_questions rows) (strip (ex_tag row)) n = []"
    by (simp add: get_random_examples_def)
  assume tq: "tag_questions e = load_example_questions rows"
  with none have "get_random_examples (rand_sample e) (tag_questions e) (strip (ex_tag row)) 30 = []"
    by (simp add: get_random_examples_def)
  from process_tag_skipped [OF this, of i st]
  have p: "process_tag e i (strip (ex_tag row)) st = skip_item i (strip (ex_tag row)) st" .
  show "item_trace (process_tag e i (strip (ex_tag row)) st)
          = item_trace st @ [(i, strip (ex_tag row), SKIPPED)]"
    by (simp add: p skip_item_def update_progress_def)
  show "gen_trace (process_tag e i (strip (ex_tag row)) st) = gen_trace st"
    by (simp add: p skip_item_def update_progress_def)
  show "individual_tags (process_tag e i (strip (ex_tag row)) st) = individual_tags st"
    by (simp add: p skip_item_def update_progress_def)
qed


theorem padded_tag_is_skipped_witness:
  "\<lparr>ex_question = py ''q1'', ex_tag = py '' voting''\<rparr> \<in> set padded_rows
   \<and> strip (py '' voting'') \<noteq> py '' voting''
   \<and> strip (py '' voting'') \<noteq> []
   \<and> strip (py '' voting'') \<noteq> py ''fraction''
   \<and> py ''voting'' \<in> set (get_unique_tags_from_questions (\<lambda>s. s) padded_rows)
   \<and> load_example_questions padded_rows (py '' voting'') \<noteq> None
   \<and> get_random_examples (\<lambda>xs n. take n xs) (load_example_questions padded_rows)
        (py ''voting'') 30 = []
   \<and> item_trace (process_tag (demo_env\<lparr>tag_questions := load_example_questions padded_rows\<rparr>)
        0 (py ''voting'') (initial_state None []))
       = [(0, py ''voting'', SKIPPED)]"
proof -
  let ?row = "\<lparr>ex_question = py ''q1'', ex_tag = py '' voting''\<rparr>"
  let ?e = "demo_env\<lparr>tag_questions := load_example_questions padded_rows\<rparr>"
  have h1: "?row \<in> set padded_rows" by (simp add: padded_rows_def)
  have h2: "strip (ex_tag ?row) \<noteq> ex_tag ?row" by (simp add: strip_padded) (simp add: py_def)
  have h3: "strip (ex_tag ?row) \<noteq> []" by (simp add: strip_padded) (simp add: py_def)
  have h4: "strip (ex_tag ?row) \<noteq> py ''fraction''" by (simp add: strip_padded) (simp add: py_def)
  have q: "strip (ex_question ?row) \<noteq> []" by (simp add: str_defs)
  have no: "\<forall>r\<in>set padded_rows. ex_tag r = strip (ex_tag ?row) \<longrightarrow> strip (ex_question r) = []"
    by (simp add: padded_rows_def strip_padded) (simp add: py_def)
  have tq: "tag_questions ?e = load_example_questions padded_rows" by simp
  note t = padded_tag_is_skipped [OF h1 h2 h3 h4, of "\<lambda>s. s" "\<lambda>xs n. take n xs" 30 ?e 0
      "initial_state None []"]
  from t have c1: "strip (ex_tag ?row) \<in> set (get_unique_tags_from_questions (\<lambda>s. s) padded_rows)"
    by (rule conjunct1)
  from t q have c2: "load_example_questions padded_rows (ex_tag ?row) \<noteq> None"
    by blast
  from t no have c3: "get_random_examples (\<lambda>xs n. take n xs)
      (load_example_questions padded_rows) (strip (ex_tag ?row)) 30 = []"
    by blast
  from t no tq have c4: "item_trace (process_tag ?e 0 (strip (ex_tag ?row)) (initial_state None []))
      = item_trace (initial_state None []) @ [(0, strip (ex_tag ?row), SKIPPED)]"
    by blast
  have it: "item_trace (initial_state None []) = []" by (simp add: initial_state_def)
  from h1 h2 h3 h4 c1 c2 c3 c4 it show ?thesis by (simp add: strip_padded)
qed

text \<open>
  C10 where another row carries the stripped form as its tag: the lookup is not empty, the
  work item \<open>voting\<close> finds the example of the unpadded row.
\<close>

theorem unpadded_duplicate_counterexample:
  "strip (py '' voting'') = py ''voting''
   \<and> py '' voting'' \<noteq> py ''voting''
   \<and> get_unique_tags_from_questions (\<lambda>s. s) mixed_rows = [py ''voting'']
   \<and> get_random_examples (\<lambda>xs n. take n xs) (load_example_questions mixed_rows)
        (py ''voting'') 30 = [py ''q2'']"
  by (simp add: strip_padded mixed_rows_def get_unique_tags_from_questions_def
      load_example_questions_def add_example_def get_random_examples_def)
     (simp add: str_defs)

end
